theory Spec2Isabelle
  imports Complex_Main "HOL-Library.Log_Nat"
begin

section \<open>Python numbers\<close>

text \<open>
  The dashboard computes with Python floats (IEEE 754 binary64).  A finite float is
  modelled by the rational number it denotes; every arithmetic operation computes the
  exact rational result and rounds it to the nearest binary64 value, ties to even.
  \<open>nearest_even f x\<close> chooses between \<open>f\<close> and \<open>f + 1\<close> for an \<open>x\<close> between them;
  \<open>ilog2 x\<close> is the binary exponent of a positive rational,
  \<open>2 powi ilog2 x \<le> x < 2 powi (ilog2 x + 1)\<close>.
\<close>

definition nearest_even :: "int \<Rightarrow> rat \<Rightarrow> int" where
  "nearest_even f x =
     (if x - of_int f < 1 / 2 then f
      else if 1 / 2 < x - of_int f then f + 1
      else if even f then f else f + 1)"

definition round_half_even :: "rat \<Rightarrow> int" where
  "round_half_even x = nearest_even \<lfloor>x\<rfloor> x"

definition ilog2 :: "rat \<Rightarrow> int" where
  "ilog2 x =
     (if 1 \<le> x then int (floorlog 2 (nat \<lfloor>x\<rfloor>)) - 1
      else - int (floorlog 2 (nat (\<lceil>1 / x\<rceil> - 1))))"

text \<open>
  \<open>fl\<close> rounds a rational to binary64: to a multiple of \<open>2 powi expo x\<close>, which leaves
  53 significant bits and no bit below \<open>2 powi - 1074\<close> (the subnormal range).
  Overflow to infinity is left out: every operand of the program below is bounded by
  the constants of its breakpoint tables.
\<close>

definition expo :: "rat \<Rightarrow> int" where
  "expo x = max (ilog2 \<bar>x\<bar> - 52) (- 1074)"

definition fl :: "rat \<Rightarrow> rat" where
  "fl x =
     (if x = 0 then 0
      else of_int (round_half_even (x / 2 powi expo x)) * 2 powi expo x)"

datatype py_error = ZeroDivisionError

definition fsub :: "rat \<Rightarrow> rat \<Rightarrow> rat" where
  "fsub a b = fl (a - b)"

definition fadd :: "rat \<Rightarrow> rat \<Rightarrow> rat" where
  "fadd a b = fl (a + b)"

definition fmul :: "rat \<Rightarrow> rat \<Rightarrow> rat" where
  "fmul a b = fl (a * b)"

text \<open>Python's true division raises on a zero divisor.\<close>

definition fdiv :: "rat \<Rightarrow> rat \<Rightarrow> py_error + rat" where
  "fdiv a b = (if b = 0 then Inl ZeroDivisionError else Inr (fl (a / b)))"

text \<open>Python's \<open>round(x)\<close> with one argument: the nearest integer, ties to the even one.\<close>

definition py_round :: "rat \<Rightarrow> int" where
  "py_round x = round_half_even x"

text \<open>
  A value of a float column: a finite float, an infinity, or NaN, which is how the data
  frame holds a missing cell.
\<close>

datatype pyfloat = Fin rat | PInf | NInf | NaN

section \<open>The breakpoint tables and the per-pollutant calculators\<close>

text \<open>
  A row of a breakpoint table is the tuple
  \<open>(bp_low, bp_high, aqi_low, aqi_high, category, color)\<close> of the source.  A decimal
  literal such as \<open>12.1\<close> denotes the float nearest to it, \<open>fl 12.1\<close>.
\<close>

type_synonym breakpoint = "rat \<times> rat \<times> int \<times> int \<times> string \<times> string"

type_synonym aqi_result = "int option \<times> string \<times> string"

definition pm25_breakpoints :: "breakpoint list" where
  "pm25_breakpoints =
     [(0, 12, 0, 50, ''Bueno'', ''#00E400''),
      (fl 12.1, fl 35.4, 51, 100, ''Moderado'', ''#FFFF00''),
      (fl 35.5, fl 55.4, 101, 150, ''Insalubre para Grupos Sensibles'', ''#FF7E00''),
      (fl 55.5, fl 150.4, 151, 200, ''Insalubre'', ''#FF0000''),
      (fl 150.5, fl 250.4, 201, 300, ''Muy Insalubre'', ''#99004C''),
      (fl 250.5, fl 500.4, 301, 500, ''Peligroso'', ''#7E0023'')]"

definition co_breakpoints :: "breakpoint list" where
  "co_breakpoints =
     [(0, fl 4.4, 0, 50, ''Bueno'', ''#00E400''),
      (fl 4.5, fl 9.4, 51, 100, ''Moderado'', ''#FFFF00''),
      (fl 9.5, fl 12.4, 101, 150, ''Insalubre para Grupos Sensibles'', ''#FF7E00''),
      (fl 12.5, fl 15.4, 151, 200, ''Insalubre'', ''#FF0000''),
      (fl 15.5, fl 30.4, 201, 300, ''Muy Insalubre'', ''#99004C''),
      (fl 30.5, fl 50.4, 301, 500, ''Peligroso'', ''#7E0023'')]"

text \<open>
  The interpolation of line 51 (and 70),
  \<open>((aqi_high - aqi_low) / (bp_high - bp_low)) * (c - bp_low) + aqi_low\<close>,
  one rounding for each float operation.  The subtraction of the two integer indices
  is exact.
\<close>

definition interpolate :: "rat \<Rightarrow> rat \<Rightarrow> int \<Rightarrow> int \<Rightarrow> rat \<Rightarrow> py_error + rat" where
  "interpolate bp_low bp_high aqi_low aqi_high c =
     (case fdiv (of_int (aqi_high - aqi_low)) (fsub bp_high bp_low) of
        Inl e \<Rightarrow> Inl e
      | Inr slope \<Rightarrow> Inr (fadd (fmul slope (fsub c bp_low)) (of_int aqi_low)))"

text \<open>
  The loop shared by \<open>calculate_aqi_pm25\<close> and \<open>calculate_aqi_co\<close>: the first row
  with \<open>bp_low <= c <= bp_high\<close> gives the result; when the loop ends without one, the
  result is \<open>(None, "Fuera de rango", "#000000")\<close>.  NaN and the infinities fail the
  chained comparison against every (finite) row, so the loop moves on.
\<close>

fun scan_breakpoints :: "breakpoint list \<Rightarrow> pyfloat \<Rightarrow> py_error + aqi_result" where
  "scan_breakpoints [] c = Inr (None, ''Fuera de rango'', ''#000000'')"
| "scan_breakpoints ((bp_low, bp_high, aqi_low, aqi_high, category, color) # breakpoints) c =
     (case c of
        Fin x \<Rightarrow>
          if bp_low \<le> x \<and> x \<le> bp_high
          then (case interpolate bp_low bp_high aqi_low aqi_high x of
                  Inl e \<Rightarrow> Inl e
                | Inr aqi \<Rightarrow> Inr (Some (py_round aqi), category, color))
          else scan_breakpoints breakpoints c
      | PInf \<Rightarrow> scan_breakpoints breakpoints c
      | NInf \<Rightarrow> scan_breakpoints breakpoints c
      | NaN \<Rightarrow> scan_breakpoints breakpoints c)"

definition calculate_aqi_pm25 :: "pyfloat \<Rightarrow> py_error + aqi_result" where
  "calculate_aqi_pm25 c = scan_breakpoints pm25_breakpoints c"

definition calculate_aqi_co :: "pyfloat \<Rightarrow> py_error + aqi_result" where
  "calculate_aqi_co c = scan_breakpoints co_breakpoints c"

section \<open>The derived columns of a reading\<close>

text \<open>
  \<open>df[['aqi_pm25', 'aqi_co']].max(axis=1)\<close>: the row-wise maximum of pandas skips
  missing values and is missing when every value is.
\<close>

fun nanmax :: "int option list \<Rightarrow> int option" where
  "nanmax [] = None"
| "nanmax (None # xs) = nanmax xs"
| "nanmax (Some v # xs) = (case nanmax xs of None \<Rightarrow> Some v | Some w \<Rightarrow> Some (max v w))"

text \<open>A comparison \<open>df['aqi'] <= n\<close>: false on a missing value.\<close>

fun nan_le :: "int option \<Rightarrow> int \<Rightarrow> bool" where
  "nan_le None n = False"
| "nan_le (Some v) n = (v \<le> n)"

text \<open>\<open>np.select\<close>: the choice of the first condition that holds, else the default.\<close>

fun np_select :: "bool list \<Rightarrow> 'a list \<Rightarrow> 'a \<Rightarrow> 'a" where
  "np_select (b # bs) (x # xs) d = (if b then x else np_select bs xs d)"
| "np_select _ _ d = d"

definition conditions :: "int option \<Rightarrow> bool list" where
  "conditions a =
     [nan_le a 50, nan_le a 100, nan_le a 150, nan_le a 200, nan_le a 300, nan_le a 500]"

definition categories :: "string list" where
  "categories =
     [''Bueno'', ''Moderado'', ''Insalubre para Grupos Sensibles'', ''Insalubre'',
      ''Muy Insalubre'', ''Peligroso'']"

definition colors :: "string list" where
  "colors = [''#00E400'', ''#FFFF00'', ''#FF7E00'', ''#FF0000'', ''#99004C'', ''#7E0023'']"

text \<open>A row of \<open>AIRDATA.CSV\<close>, and the same row with the columns of lines 83 to 102.\<close>

record reading =
  timestamp :: string
  pm25 :: pyfloat
  pm10 :: pyfloat
  co :: pyfloat
  temp :: pyfloat
  humidity :: pyfloat

record aqi_row = reading +
  aqi_pm25 :: "int option"
  category_pm25 :: string
  color_pm25 :: string
  aqi_co :: "int option"
  category_co :: string
  color_co :: string
  aqi :: "int option"
  category :: string
  color :: string

definition add_aqi_columns :: "reading \<Rightarrow> py_error + aqi_row" where
  "add_aqi_columns r =
     (case calculate_aqi_pm25 (pm25 r) of
        Inl e \<Rightarrow> Inl e
      | Inr (a1, c1, k1) \<Rightarrow>
          (case calculate_aqi_co (co r) of
             Inl e \<Rightarrow> Inl e
           | Inr (a2, c2, k2) \<Rightarrow>
               let a = nanmax [a1, a2]
               in Inr \<lparr>timestamp = timestamp r, pm25 = pm25 r, pm10 = pm10 r, co = co r,
                        temp = temp r, humidity = humidity r,
                        aqi_pm25 = a1, category_pm25 = c1, color_pm25 = k1,
                        aqi_co = a2, category_co = c2, color_co = k2,
                        aqi = a,
                        category = np_select (conditions a) categories ''Fuera de rango'',
                        color = np_select (conditions a) colors ''#000000''\<rparr>))"

section \<open>Matching rows, tables in order, and the vocabulary of the properties\<close>

text \<open>
  The vocabulary of the properties below.  \<open>matches s x\<close> is the test
  \<open>bp_low <= x <= bp_high\<close> of the loop on the row \<open>s\<close>; \<open>first_match\<close> is the first
  row of a table that a value matches, in the order of the loop.
\<close>

definition matches :: "breakpoint \<Rightarrow> rat \<Rightarrow> bool" where
  "matches s x = (case s of (bl, bh, al, ah, cat, col) \<Rightarrow> bl \<le> x \<and> x \<le> bh)"

definition first_match :: "breakpoint list \<Rightarrow> pyfloat \<Rightarrow> breakpoint option" where
  "first_match bps c = (case c of Fin x \<Rightarrow> find (\<lambda>s. matches s x) bps | _ \<Rightarrow> None)"

text \<open>
  A row is in order when its bounds and indices ascend, its width is a positive float,
  and the interpolation stays inside the row's index range at both ends.  A table is in
  order when each row is, and every later row starts above it in concentration and not
  below it in index.
\<close>

definition seg_ok :: "breakpoint \<Rightarrow> bool" where
  "seg_ok s =
     (case s of (bl, bh, al, ah, cat, col) \<Rightarrow>
        bl \<le> bh \<and> 0 \<le> al \<and> al \<le> ah \<and> 0 < fsub bh bl \<and>
        (case interpolate bl bh al ah bl of Inl e \<Rightarrow> False | Inr a \<Rightarrow> al \<le> py_round a) \<and>
        (case interpolate bl bh al ah bh of Inl e \<Rightarrow> False | Inr a \<Rightarrow> py_round a \<le> ah))"

definition below :: "breakpoint \<Rightarrow> breakpoint \<Rightarrow> bool" where
  "below s t =
     (case s of (bl, bh, al, ah, cat, col) \<Rightarrow>
        case t of (bl', bh', al', ah', cat', col') \<Rightarrow> bh < bl' \<and> ah \<le> al')"

fun table_ok :: "breakpoint list \<Rightarrow> bool" where
  "table_ok [] = True"
| "table_ok (s # ss) = (seg_ok s \<and> list_all (below s) ss \<and> table_ok ss)"

text \<open>A value is covered by a table when some row matches it.\<close>

definition covered :: "breakpoint list \<Rightarrow> rat \<Rightarrow> bool" where
  "covered bps x = list_ex (\<lambda>s. matches s x) bps"

text \<open>
  The gaps of a table: each pair of the upper bound of a row and the lower bound of the
  next row.
\<close>

definition gaps :: "breakpoint list \<Rightarrow> (rat \<times> rat) list" where
  "gaps bps =
     zip (map (\<lambda>(bl, bh, al, ah, cat, col). bh) bps)
         (map (\<lambda>(bl, bh, al, ah, cat, col). bl) (tl bps))"

text \<open>
  The per-pollutant results of a row, as the data frame holds them: the three columns
  \<open>aqi_*\<close>, \<open>category_*\<close>, \<open>color_*\<close> of each pollutant.  \<open>derived\<close> is everything
  that lines 83 to 102 add to a reading.
\<close>

definition per_pollutant :: "aqi_row \<Rightarrow> (string \<times> aqi_result) list" where
  "per_pollutant row =
     [(''pm25'', aqi_pm25 row, category_pm25 row, color_pm25 row),
      (''co'', aqi_co row, category_co row, color_co row)]"

definition defined_indices :: "aqi_row \<Rightarrow> int list" where
  "defined_indices row =
     concat (map (\<lambda>(p, a, c, k). case a of None \<Rightarrow> [] | Some i \<Rightarrow> [i]) (per_pollutant row))"

definition derived :: "aqi_row \<Rightarrow> (string \<times> aqi_result) list \<times> aqi_result" where
  "derived row = (per_pollutant row, aqi row, category row, color row)"

text \<open>An index, when defined, lies on the AQI scale from 0 to 500.\<close>

definition in_range :: "int option \<Rightarrow> bool" where
  "in_range a = (case a of None \<Rightarrow> True | Some i \<Rightarrow> 0 \<le> i \<and> i \<le> 500)"

subsection \<open>The words of the specification\<close>

text \<open>
  The specification names the severities in English; the source's strings for them are
  those of \<open>categories\<close>, in the same order, and \<open>"Fuera de rango"\<close> for a value out of
  range.
\<close>

datatype severity =
  Good | Moderate | UnhealthyForSensitive | Unhealthy | VeryUnhealthy | Hazardous | OutOfRange

fun severity_name :: "severity \<Rightarrow> string" where
  "severity_name Good = ''Bueno''"
| "severity_name Moderate = ''Moderado''"
| "severity_name UnhealthyForSensitive = ''Insalubre para Grupos Sensibles''"
| "severity_name Unhealthy = ''Insalubre''"
| "severity_name VeryUnhealthy = ''Muy Insalubre''"
| "severity_name Hazardous = ''Peligroso''"
| "severity_name OutOfRange = ''Fuera de rango''"

text \<open>
  The general AQI thresholds as the specification lists them: 0 to 50 Good, 51 to 100
  Moderate, 101 to 150 UnhealthyForSensitive, 151 to 200 Unhealthy, 201 to 300
  VeryUnhealthy, 301 to 500 Hazardous; an undefined index is OutOfRange.
\<close>

definition spec_overall_category :: "int option \<Rightarrow> severity" where
  "spec_overall_category a =
     (case a of
        None \<Rightarrow> OutOfRange
      | Some i \<Rightarrow>
          if 0 \<le> i \<and> i \<le> 50 then Good
          else if 51 \<le> i \<and> i \<le> 100 then Moderate
          else if 101 \<le> i \<and> i \<le> 150 then UnhealthyForSensitive
          else if 151 \<le> i \<and> i \<le> 200 then Unhealthy
          else if 201 \<le> i \<and> i \<le> 300 then VeryUnhealthy
          else if 301 \<le> i \<and> i \<le> 500 then Hazardous
          else OutOfRange)"

text \<open>Rounding to the nearest integer with ties upwards, as the specification words it.\<close>

definition spec_round_half_up :: "rat \<Rightarrow> int" where
  "spec_round_half_up x = \<lfloor>x + 1 / 2\<rfloor>"

section \<open>Rounding is monotone\<close>

lemma rhe_lower: "\<lfloor>x\<rfloor> \<le> round_half_even x"
  by (simp add: round_half_even_def nearest_even_def)

lemma rhe_upper: "round_half_even x \<le> \<lfloor>x\<rfloor> + 1"
  by (simp add: round_half_even_def nearest_even_def)

lemma rhe_of_int: "round_half_even (of_int n) = n"
  by (simp add: round_half_even_def nearest_even_def)

lemma rhe_ge: "of_int n \<le> x \<Longrightarrow> n \<le> round_half_even x"
proof -
  assume "of_int n \<le> x"
  then have "n \<le> \<lfloor>x\<rfloor>" by (simp add: le_floor_iff)
  with rhe_lower [of x] show ?thesis by linarith
qed

lemma rhe_le:
  assumes "x \<le> of_int n"
  shows "round_half_even x \<le> n"
proof (cases "x = of_int n")
  case True
  then show ?thesis by (simp add: rhe_of_int)
next
  case False
  with assms have "x < of_int n" by simp
  then have "\<lfloor>x\<rfloor> < n" by (simp add: floor_less_iff)
  with rhe_upper [of x] show ?thesis by linarith
qed

lemma rhe_mono:
  assumes "x \<le> y"
  shows "round_half_even x \<le> round_half_even y"
proof (cases "\<lfloor>x\<rfloor> = \<lfloor>y\<rfloor>")
  case True
  with assms show ?thesis
    by (auto simp add: round_half_even_def nearest_even_def)
next
  case False
  moreover from assms have "\<lfloor>x\<rfloor> \<le> \<lfloor>y\<rfloor>" by (rule floor_mono)
  ultimately have "\<lfloor>x\<rfloor> + 1 \<le> \<lfloor>y\<rfloor>" by simp
  with rhe_upper [of x] rhe_lower [of y] show ?thesis by linarith
qed

lemma floorlog2_Suc:
  assumes "0 < n"
  obtains k where "floorlog 2 n = Suc k" "2 ^ k \<le> n" "Suc n \<le> 2 ^ Suc k"
proof -
  from assms have "floorlog 2 n \<noteq> 0" by (simp add: floorlog_eq_zero_iff)
  then obtain k where k: "floorlog 2 n = Suc k" using not0_implies_Suc by blast
  from assms have "2 ^ (floorlog 2 n - 1) \<le> n \<and> n < 2 ^ floorlog 2 n"
    by (rule floorlog_bounds) simp
  then have "2 ^ k \<le> n \<and> n < 2 ^ Suc k"
    by (simp only: k diff_Suc_1)
  then have "2 ^ k \<le> n" "Suc n \<le> 2 ^ Suc k" by (simp_all only: Suc_le_eq)
  with k show thesis by (rule that)
qed

lemma powi_Suc: "(2::rat) powi (int k + 1) = 2 ^ Suc k"
proof -
  have "int k + 1 = int (Suc k)" by simp
  then show ?thesis by (simp only: power_int_of_nat)
qed

lemma ilog2_bounds:
  assumes "0 < x"
  shows "2 powi ilog2 x \<le> x \<and> x < 2 powi (ilog2 x + 1)"
proof (cases "1 \<le> x")
  case True
  define n where "n = nat \<lfloor>x\<rfloor>"
  from True have n: "0 < n" "of_nat n \<le> x" "x < of_nat n + 1"
    unfolding n_def using floor_correct [of x] by (simp_all add: le_floor_iff of_nat_nat)
  from n(1) obtain k where L: "floorlog 2 n = Suc k" and b: "2 ^ k \<le> n" "Suc n \<le> 2 ^ Suc k"
    by (rule floorlog2_Suc)
  have il: "ilog2 x = int k"
    using True L by (simp add: ilog2_def n_def)
  from b(1) have "(of_nat (2 ^ k)::rat) \<le> of_nat n" by (simp only: of_nat_le_iff)
  then have "(2::rat) ^ k \<le> of_nat n" by simp
  with n have lo: "(2::rat) ^ k \<le> x" by linarith
  from b(2) have "(of_nat (Suc n)::rat) \<le> of_nat (2 ^ Suc k)" by (simp only: of_nat_le_iff)
  then have "(of_nat n::rat) + 1 \<le> 2 ^ Suc k" by simp
  with n have hi: "x < 2 ^ Suc k" by linarith
  from lo hi show ?thesis by (simp only: il powi_Suc power_int_of_nat)
next
  case False
  define y where "y = 1 / x"
  define m where "m = nat (\<lceil>y\<rceil> - 1)"
  from False assms have y1: "1 < y" by (simp add: y_def)
  then have "1 < \<lceil>y\<rceil>" by (simp add: less_ceiling_iff)
  then have m: "0 < m" "int m = \<lceil>y\<rceil> - 1" by (simp_all add: m_def)
  from m(1) obtain k where L: "floorlog 2 m = Suc k" and b: "2 ^ k \<le> m" "Suc m \<le> 2 ^ Suc k"
    by (rule floorlog2_Suc)
  have il: "ilog2 x = - int (Suc k)"
    using False L by (simp add: ilog2_def m_def y_def)
  from b(2) have "int (Suc m) \<le> int (2 ^ Suc k)" by (simp only: of_nat_le_iff)
  with m have "\<lceil>y\<rceil> \<le> 2 ^ Suc k" by simp
  then have "y \<le> of_int (2 ^ Suc k)" by (simp only: ceiling_le_iff)
  then have yhi: "y \<le> 2 ^ Suc k" by simp
  from b(1) have "int (2 ^ k) \<le> int m" by (simp only: of_nat_le_iff)
  with m have "2 ^ k < \<lceil>y\<rceil>" by simp
  then have "of_int (2 ^ k) < y" by (simp only: less_ceiling_iff)
  then have ylo: "2 ^ k < y" by simp
  have p: "(0::rat) < 2 ^ Suc k" "(0::rat) < 2 ^ k" by simp_all
  from yhi assms p(1) have lo: "1 / 2 ^ Suc k \<le> x"
    unfolding y_def by (simp add: field_simps)
  from ylo assms p(2) have hi: "x < 1 / 2 ^ k"
    unfolding y_def by (simp add: field_simps)
  have e1: "(2::rat) powi (- int (Suc k)) = 1 / 2 ^ Suc k"
    by (simp only: power_int_minus_divide power_int_of_nat)
  have "- int (Suc k) + 1 = - int k" by simp
  then have e2: "(2::rat) powi (- int (Suc k) + 1) = 1 / 2 ^ k"
    by (simp only: power_int_minus_divide power_int_of_nat)
  from lo hi show ?thesis by (simp only: il e1 e2)
qed

lemma fl_expo: "x \<noteq> 0 \<Longrightarrow> fl x = of_int (round_half_even (x / 2 powi expo x)) * 2 powi expo x"
  by (simp add: fl_def)

lemma fl_nonneg:
  assumes "0 \<le> x"
  shows "0 \<le> fl x"
proof (cases "x = 0")
  case True
  then show ?thesis by (simp add: fl_def)
next
  case False
  have "(0::rat) < 2 powi expo x" by simp
  with assms have "of_int 0 \<le> x / 2 powi expo x" by simp
  then have "0 \<le> round_half_even (x / 2 powi expo x)" by (rule rhe_ge)
  then show ?thesis using False by (simp add: fl_expo)
qed

lemma ilog2_mono:
  assumes "0 < x" "x \<le> y"
  shows "ilog2 x \<le> ilog2 y"
proof (rule ccontr)
  assume "\<not> ilog2 x \<le> ilog2 y"
  then have "ilog2 y + 1 \<le> ilog2 x" by simp
  then have "(2::rat) powi (ilog2 y + 1) \<le> 2 powi ilog2 x"
    by (rule power_int_increasing) simp
  moreover from assms have "0 < y" by simp
  ultimately show False
    using ilog2_bounds [of x] ilog2_bounds [of y] assms by linarith
qed

lemma fl_mono:
  assumes "0 \<le> x" "x \<le> y"
  shows "fl x \<le> fl y"
proof (cases "x = 0")
  case True
  with assms fl_nonneg [of y] show ?thesis by (simp add: fl_def)
next
  case False
  with assms have pos: "0 < x" "0 < y" by simp_all
  then have ne: "x \<noteq> 0" "y \<noteq> 0" by simp_all
  have ab: "\<bar>x\<bar> = x" "\<bar>y\<bar> = y" using pos by simp_all
  from pos(1) assms(2) have "ilog2 x \<le> ilog2 y" by (rule ilog2_mono)
  then have le: "expo x \<le> expo y" by (simp add: expo_def ab)
  show ?thesis
  proof (cases "expo x = expo y")
    case True
    have "(0::rat) < 2 powi expo y" by simp
    with assms(2) have "x / 2 powi expo y \<le> y / 2 powi expo y"
      by (simp add: divide_right_mono)
    then have "round_half_even (x / 2 powi expo y) \<le> round_half_even (y / 2 powi expo y)"
      by (rule rhe_mono)
    then have "(of_int (round_half_even (x / 2 powi expo y))::rat)
        \<le> of_int (round_half_even (y / 2 powi expo y))" by simp
    then have "of_int (round_half_even (x / 2 powi expo y)) * 2 powi expo y
        \<le> of_int (round_half_even (y / 2 powi expo y)) * (2::rat) powi expo y"
      by (rule mult_right_mono) simp
    then show ?thesis by (simp add: fl_expo ne True)
  next
    case False
    with le have lt: "expo x + 1 \<le> expo y" by simp
    have px: "(0::rat) < 2 powi expo x" and py: "(0::rat) < 2 powi expo y" by simp_all
    have "- 1074 \<le> expo x" by (simp add: expo_def)
    with lt have ey: "expo y = ilog2 y - 52" by (simp add: expo_def ab)
    have ex: "ilog2 x + 1 \<le> expo x + 53" by (simp add: expo_def ab)
    have "(2::rat) powi (expo y + 52) \<le> y"
      using ilog2_bounds [OF pos(2)] by (simp add: ey)
    then have "2 powi expo y * 2 powi 52 \<le> y"
      by (simp add: power_int_add)
    with py have "of_int (2 ^ 52) \<le> y / 2 powi expo y"
      by (simp add: field_simps)
    then have "2 ^ 52 \<le> round_half_even (y / 2 powi expo y)" by (rule rhe_ge)
    then have "(of_int (2 ^ 52)::rat) \<le> of_int (round_half_even (y / 2 powi expo y))"
      by (simp only: of_int_le_iff)
    then have "of_int (2 ^ 52) * 2 powi expo y
        \<le> of_int (round_half_even (y / 2 powi expo y)) * (2::rat) powi expo y"
      by (rule mult_right_mono) simp
    then have lower: "of_int (2 ^ 52) * 2 powi expo y \<le> fl y"
      by (simp only: fl_expo [OF ne(2)])
    have "(2::rat) powi (ilog2 x + 1) \<le> 2 powi (expo x + 53)"
      using ex by (rule power_int_increasing) simp
    with ilog2_bounds [OF pos(1)] have "x \<le> 2 powi (expo x + 53)" by linarith
    then have "x \<le> 2 powi expo x * 2 powi 53"
      by (simp add: power_int_add)
    with px have "x / 2 powi expo x \<le> of_int (2 ^ 53)"
      by (simp add: field_simps)
    then have "round_half_even (x / 2 powi expo x) \<le> 2 ^ 53" by (rule rhe_le)
    then have "(of_int (round_half_even (x / 2 powi expo x))::rat) \<le> of_int (2 ^ 53)"
      by (simp only: of_int_le_iff)
    then have "of_int (round_half_even (x / 2 powi expo x)) * 2 powi expo x
        \<le> of_int (2 ^ 53) * (2::rat) powi expo x"
      by (rule mult_right_mono) simp
    then have upper: "fl x \<le> of_int (2 ^ 53) * 2 powi expo x"
      by (simp only: fl_expo [OF ne(1)])
    have "(2::rat) powi (expo x + 1) \<le> 2 powi expo y"
      using lt by (rule power_int_increasing) simp
    then have "2 powi expo x * 2 \<le> (2::rat) powi expo y"
      by (simp add: power_int_add)
    then have "of_int (2 ^ 53) * 2 powi expo x \<le> of_int (2 ^ 52) * (2::rat) powi expo y"
      by simp
    with lower upper show ?thesis by linarith
  qed
qed

section \<open>Evaluating the float operations on numerals\<close>

lemma floor_rat_numeral:
  "\<lfloor>numeral a / numeral b :: rat\<rfloor> = numeral a div numeral b"
  "\<lfloor>1 / numeral b :: rat\<rfloor> = 1 div numeral b"
  by (metis floor_divide_of_int_eq of_int_numeral, metis floor_divide_of_int_eq of_int_numeral of_int_1)

lemma ceiling_rat_numeral:
  "\<lceil>numeral a / numeral b :: rat\<rceil> = - (- numeral a div numeral b)"
  "\<lceil>1 / numeral b :: rat\<rceil> = - (- 1 div numeral b)"
  unfolding ceiling_def
  by (metis floor_divide_of_int_eq of_int_numeral of_int_minus minus_divide_left,
      metis floor_divide_of_int_eq of_int_numeral of_int_minus minus_divide_left of_int_1)

lemma floorlog2_numeral:
  "floorlog 2 (numeral (Num.Bit0 n)) = floorlog 2 (numeral n) + 1"
  "floorlog 2 (numeral (Num.Bit1 n)) = floorlog 2 (numeral n) + 1"
  "floorlog 2 (Suc 0) = 1"
  "floorlog 2 1 = 1"
  "floorlog 2 0 = 0"
proof -
  have "numeral (Num.Bit0 n) div (2::nat) = numeral n" by simp
  then show "floorlog 2 (numeral (Num.Bit0 n)) = floorlog 2 (numeral n) + 1"
    by (subst compute_floorlog) simp
  have "numeral (Num.Bit1 n) div (2::nat) = numeral n" by simp
  then show "floorlog 2 (numeral (Num.Bit1 n)) = floorlog 2 (numeral n) + 1"
    by (subst compute_floorlog) simp
  show "floorlog 2 (Suc 0) = 1" by (subst compute_floorlog) (simp add: floorlog_eq_zero_iff)
  then show "floorlog 2 1 = 1" by simp
  show "floorlog 2 0 = 0" by (simp add: floorlog_eq_zero_iff)
qed

lemmas fl_eval = fl_def expo_def ilog2_def round_half_even_def nearest_even_def floorlog2_numeral
  floor_rat_numeral ceiling_rat_numeral

lemmas calc_eval = fl_eval fsub_def fadd_def fmul_def fdiv_def py_round_def interpolate_def

section \<open>The two tables are in order\<close>

lemma pm25_values:
  "pm25_breakpoints =
     [(0, 12, 0, 50, ''Bueno'', ''#00E400''),
      (6811694436397875 / 562949953421312, 4982107087778611 / 140737488355328, 51, 100, ''Moderado'', ''#FFFF00''),
      (71 / 2, 7796856854885171 / 140737488355328, 101, 150, ''Insalubre para Grupos Sensibles'', ''#FF7E00''),
      (111 / 2, 5291729562160333 / 35184372088832, 151, 200, ''Insalubre'', ''#FF0000''),
      (301 / 2, 8810166771043533 / 35184372088832, 201, 300, ''Muy Insalubre'', ''#99004C''),
      (501 / 2, 4401564948312883 / 8796093022208, 301, 500, ''Peligroso'', ''#7E0023'')]"
  by (simp add: pm25_breakpoints_def fl_eval)

lemma co_values:
  "co_breakpoints =
     [(0, 2476979795053773 / 562949953421312, 0, 50, ''Bueno'', ''#00E400''),
      (9 / 2, 5291729562160333 / 562949953421312, 51, 100, ''Moderado'', ''#FFFF00''),
      (19 / 2, 6980579422424269 / 562949953421312, 101, 150, ''Insalubre para Grupos Sensibles'', ''#FF7E00''),
      (25 / 2, 8669429282688205 / 562949953421312, 151, 200, ''Insalubre'', ''#FF0000''),
      (31 / 2, 4278419646001971 / 140737488355328, 201, 300, ''Muy Insalubre'', ''#99004C''),
      (61 / 2, 7093169413108531 / 140737488355328, 301, 500, ''Peligroso'', ''#7E0023'')]"
  by (simp add: co_breakpoints_def fl_eval)

lemma pm25_ok: "table_ok pm25_breakpoints"
  apply (simp only: pm25_values table_ok.simps list.pred_inject seg_ok_def below_def prod.case)
  apply (simp add: calc_eval)
  done

lemma co_ok: "table_ok co_breakpoints"
  apply (simp only: co_values table_ok.simps list.pred_inject seg_ok_def below_def prod.case)
  apply (simp add: calc_eval)
  done

section \<open>The loop on a table in order\<close>

lemma interpolate_mono:
  assumes d: "0 < fsub bh bl" and a: "0 \<le> al" "al \<le> ah" and x: "bl \<le> x" "x \<le> y"
  obtains u v where "interpolate bl bh al ah x = Inr u" "interpolate bl bh al ah y = Inr v" "u \<le> v"
proof -
  define k where "k = fl (of_int (ah - al) / fsub bh bl)"
  from d a have "0 \<le> of_int (ah - al) / fsub bh bl" by simp
  then have k: "0 \<le> k" unfolding k_def by (rule fl_nonneg)
  from x have dx: "0 \<le> x - bl" "x - bl \<le> y - bl" by simp_all
  have s: "0 \<le> fsub x bl" "fsub x bl \<le> fsub y bl"
    unfolding fsub_def using dx by (simp_all add: fl_nonneg fl_mono)
  with k have px: "0 \<le> k * fsub x bl" "k * fsub x bl \<le> k * fsub y bl"
    by (simp_all add: mult_left_mono)
  have m: "0 \<le> fmul k (fsub x bl)" "fmul k (fsub x bl) \<le> fmul k (fsub y bl)"
    unfolding fmul_def using px by (simp_all add: fl_nonneg fl_mono)
  with a have "0 \<le> fmul k (fsub x bl) + of_int al"
    "fmul k (fsub x bl) + of_int al \<le> fmul k (fsub y bl) + of_int al" by simp_all
  then have "fadd (fmul k (fsub x bl)) (of_int al) \<le> fadd (fmul k (fsub y bl)) (of_int al)"
    unfolding fadd_def by (rule fl_mono)
  moreover from d have "interpolate bl bh al ah x = Inr (fadd (fmul k (fsub x bl)) (of_int al))"
    "interpolate bl bh al ah y = Inr (fadd (fmul k (fsub y bl)) (of_int al))"
    by (simp_all add: interpolate_def fdiv_def k_def)
  ultimately show thesis using that by blast
qed

lemma seg_ok_range:
  assumes ok: "seg_ok (bl, bh, al, ah, cat, col)" and x: "bl \<le> x" "x \<le> bh"
  obtains a where "interpolate bl bh al ah x = Inr a" "al \<le> py_round a" "py_round a \<le> ah"
proof -
  from ok have d: "0 < fsub bh bl" and a: "0 \<le> al" "al \<le> ah"
    and lo: "case interpolate bl bh al ah bl of Inl e \<Rightarrow> False | Inr a \<Rightarrow> al \<le> py_round a"
    and hi: "case interpolate bl bh al ah bh of Inl e \<Rightarrow> False | Inr a \<Rightarrow> py_round a \<le> ah"
    by (simp_all add: seg_ok_def)
  have "bl \<le> bl" by simp
  from interpolate_mono [OF d a this x(1)] obtain u v where uv:
    "interpolate bl bh al ah bl = Inr u" "interpolate bl bh al ah x = Inr v" "u \<le> v"
    by blast
  from interpolate_mono [OF d a x] obtain v' w where vw:
    "interpolate bl bh al ah x = Inr v'" "interpolate bl bh al ah bh = Inr w" "v' \<le> w"
    by blast
  from uv vw have "v' = v" by simp
  from lo uv have "al \<le> py_round u" by simp
  moreover from uv have "py_round u \<le> py_round v" by (simp add: py_round_def rhe_mono)
  moreover from hi vw have "py_round w \<le> ah" by simp
  moreover from vw \<open>v' = v\<close> have "py_round v \<le> py_round w" by (simp add: py_round_def rhe_mono)
  ultimately have "al \<le> py_round v" "py_round v \<le> ah" by simp_all
  with uv(2) show thesis by (rule that)
qed

lemma scan_Fin_Cons:
  "scan_breakpoints ((bl, bh, al, ah, cat, col) # bps) (Fin x) =
     (if bl \<le> x \<and> x \<le> bh
      then (case interpolate bl bh al ah x of
              Inl e \<Rightarrow> Inl e
            | Inr a \<Rightarrow> Inr (Some (py_round a), cat, col))
      else scan_breakpoints bps (Fin x))"
  by simp

lemma scan_no_match:
  "first_match bps c = None \<Longrightarrow> scan_breakpoints bps c = Inr (None, ''Fuera de rango'', ''#000000'')"
proof (induction bps)
  case Nil
  show ?case by simp
next
  case (Cons s bps)
  obtain bl bh al ah cat col where s: "s = (bl, bh, al, ah, cat, col)"
    by (cases s) auto
  from Cons show ?case
    by (cases c) (auto simp add: s first_match_def matches_def split: if_splits)
qed

lemma scan_first_match:
  "first_match bps (Fin x) = Some (bl, bh, al, ah, cat, col) \<Longrightarrow>
   scan_breakpoints bps (Fin x) =
     (case interpolate bl bh al ah x of
        Inl e \<Rightarrow> Inl e
      | Inr a \<Rightarrow> Inr (Some (py_round a), cat, col))"
proof (induction bps)
  case Nil
  then show ?case by (simp add: first_match_def)
next
  case (Cons s bps)
  obtain bl' bh' al' ah' cat' col' where s: "s = (bl', bh', al', ah', cat', col')"
    by (cases s) auto
  from Cons show ?case
    by (auto simp add: s first_match_def matches_def split: if_splits)
qed

lemma first_match_set:
  assumes "first_match bps (Fin x) = Some s"
  shows "s \<in> set bps \<and> matches s x"
  using assms by (auto simp add: first_match_def find_Some_iff)

lemma table_ok_seg: "table_ok bps \<Longrightarrow> s \<in> set bps \<Longrightarrow> seg_ok s"
  by (induction bps) auto

lemma scan_range:
  assumes ok: "table_ok bps" and m: "first_match bps (Fin x) = Some (bl, bh, al, ah, cat, col)"
  obtains i where "scan_breakpoints bps (Fin x) = Inr (Some i, cat, col)" "al \<le> i" "i \<le> ah"
proof -
  from m have "(bl, bh, al, ah, cat, col) \<in> set bps" and x: "bl \<le> x" "x \<le> bh"
    using first_match_set [OF m] by (simp_all add: matches_def)
  with ok have "seg_ok (bl, bh, al, ah, cat, col)" by (simp add: table_ok_seg)
  from this x obtain a where a: "interpolate bl bh al ah x = Inr a" "al \<le> py_round a" "py_round a \<le> ah"
    by (rule seg_ok_range)
  from m a(1) have "scan_breakpoints bps (Fin x) = Inr (Some (py_round a), cat, col)"
    by (simp add: scan_first_match)
  with a(2,3) show thesis using that by blast
qed

lemma scan_mono:
  assumes "table_ok bps" "x \<le> y"
    and "first_match bps (Fin x) = Some s" "first_match bps (Fin y) = Some t"
  shows "\<exists>i j cx kx cy ky. scan_breakpoints bps (Fin x) = Inr (Some i, cx, kx) \<and>
           scan_breakpoints bps (Fin y) = Inr (Some j, cy, ky) \<and> i \<le> j"
  using assms
proof (induction bps)
  case Nil
  then show ?case by (simp add: first_match_def)
next
  case (Cons s0 bps)
  obtain bl bh al ah cat col where s0: "s0 = (bl, bh, al, ah, cat, col)"
    by (cases s0) auto
  from Cons.prems(1) have ok0: "seg_ok (bl, bh, al, ah, cat, col)"
    and bel: "\<forall>u \<in> set bps. below s0 u" and ok: "table_ok bps"
    by (simp_all add: s0 list_all_iff)
  show ?case
  proof (cases "matches s0 x")
    case mx: True
    then have fx: "first_match (s0 # bps) (Fin x) = Some (bl, bh, al, ah, cat, col)"
      by (simp add: first_match_def s0)
    from Cons.prems(1) fx obtain i where i: "scan_breakpoints (s0 # bps) (Fin x) = Inr (Some i, cat, col)"
      "al \<le> i" "i \<le> ah" by (rule scan_range)
    show ?thesis
    proof (cases "matches s0 y")
      case True
      from ok0 have d: "0 < fsub bh bl" "0 \<le> al" "al \<le> ah" by (simp_all add: seg_ok_def)
      from mx have "bl \<le> x" by (simp add: matches_def s0)
      from interpolate_mono [OF d this Cons.prems(2)] obtain u v where uv:
        "interpolate bl bh al ah x = Inr u" "interpolate bl bh al ah y = Inr v" "u \<le> v"
        by blast
      from uv(3) have "py_round u \<le> py_round v" by (simp add: py_round_def rhe_mono)
      with mx True uv(1,2) show ?thesis by (auto simp add: s0 matches_def)
    next
      case False
      with Cons.prems(4) have fy: "first_match bps (Fin y) = Some t"
        by (simp add: first_match_def)
      obtain bl' bh' al' ah' cat' col' where t: "t = (bl', bh', al', ah', cat', col')"
        by (cases t) auto
      from ok fy obtain j where j: "scan_breakpoints bps (Fin y) = Inr (Some j, cat', col')"
        "al' \<le> j" "j \<le> ah'" unfolding t by (rule scan_range)
      from fy have "t \<in> set bps" using first_match_set by blast
      with bel have "ah \<le> al'" by (auto simp add: below_def s0 t)
      with i j have "i \<le> j" by simp
      moreover from False j have "scan_breakpoints (s0 # bps) (Fin y) = Inr (Some j, cat', col')"
        by (auto simp add: s0 matches_def)
      ultimately show ?thesis using i(1) by blast
    qed
  next
    case nx: False
    with Cons.prems(3) have fx: "first_match bps (Fin x) = Some s"
      by (simp add: first_match_def)
    have ny: "\<not> matches s0 y"
    proof
      assume my: "matches s0 y"
      obtain bl' bh' al' ah' cat' col' where s: "s = (bl', bh', al', ah', cat', col')"
        by (cases s) auto
      from fx have "s \<in> set bps" "matches s x" using first_match_set by blast+
      with bel have "bh < bl'" "bl' \<le> x" by (auto simp add: below_def s0 s matches_def)
      moreover from my have "y \<le> bh" by (simp add: matches_def s0)
      ultimately show False using Cons.prems(2) by simp
    qed
    with Cons.prems(4) have fy: "first_match bps (Fin y) = Some t"
      by (simp add: first_match_def)
    from Cons.IH [OF ok Cons.prems(2) fx fy] nx ny show ?thesis
      by (auto simp add: s0 matches_def)
  qed
qed

section \<open>The calculators and the derived columns never raise\<close>

lemma scan_total:
  assumes "table_ok bps"
  shows "\<exists>a cat col. scan_breakpoints bps c = Inr (a, cat, col)"
proof (cases "first_match bps c")
  case None
  then show ?thesis by (simp add: scan_no_match)
next
  case (Some s)
  then obtain x where c: "c = Fin x" by (cases c) (simp_all add: first_match_def)
  obtain bl bh al ah cat col where s: "s = (bl, bh, al, ah, cat, col)"
    by (cases s) auto
  from assms Some obtain i where "scan_breakpoints bps (Fin x) = Inr (Some i, cat, col)"
    unfolding c s by (rule scan_range)
  then show ?thesis by (simp add: c)
qed

lemma table_index_bounds:
  "\<forall>(bl, bh, al, ah, cat, col) \<in> set pm25_breakpoints. 0 \<le> al \<and> ah \<le> 500"
  "\<forall>(bl, bh, al, ah, cat, col) \<in> set co_breakpoints. 0 \<le> al \<and> ah \<le> 500"
  by (simp_all add: pm25_values co_values)

lemma scan_index_cases:
  assumes "table_ok bps" "\<forall>(bl, bh, al, ah, cat, col) \<in> set bps. 0 \<le> al \<and> ah \<le> 500"
  obtains cat col where "scan_breakpoints bps c = Inr (None, cat, col)"
  | i cat col where "scan_breakpoints bps c = Inr (Some i, cat, col)" "0 \<le> i" "i \<le> 500"
proof (cases "first_match bps c")
  case None
  then show ?thesis using that(1) by (simp add: scan_no_match)
next
  case (Some s)
  then obtain x where c: "c = Fin x" by (cases c) (simp_all add: first_match_def)
  obtain bl bh al ah cat col where s: "s = (bl, bh, al, ah, cat, col)"
    by (cases s) auto
  from assms(1) Some obtain i where i: "scan_breakpoints bps (Fin x) = Inr (Some i, cat, col)"
    "al \<le> i" "i \<le> ah"
    unfolding c s by (rule scan_range)
  from Some have "s \<in> set bps" unfolding c using first_match_set by blast
  with assms(2) have "0 \<le> al" "ah \<le> 500" by (auto simp add: s)
  with i show ?thesis using that(2) by (simp add: c)
qed

lemma pm25_index_cases:
  obtains cat col where "calculate_aqi_pm25 c = Inr (None, cat, col)"
  | i cat col where "calculate_aqi_pm25 c = Inr (Some i, cat, col)" "0 \<le> i" "i \<le> 500"
  unfolding calculate_aqi_pm25_def
  using scan_index_cases [OF pm25_ok table_index_bounds(1)] by blast

lemma co_index_cases:
  obtains cat col where "calculate_aqi_co c = Inr (None, cat, col)"
  | i cat col where "calculate_aqi_co c = Inr (Some i, cat, col)" "0 \<le> i" "i \<le> 500"
  unfolding calculate_aqi_co_def
  using scan_index_cases [OF co_ok table_index_bounds(2)] by blast

lemma select_category:
  "severity_name (spec_overall_category None) = np_select (conditions None) categories ''Fuera de rango''"
  "0 \<le> i \<Longrightarrow> i \<le> 500 \<Longrightarrow>
   severity_name (spec_overall_category (Some i)) = np_select (conditions (Some i)) categories ''Fuera de rango''"
  by (simp_all add: spec_overall_category_def conditions_def categories_def)

lemma add_aqi_columns_Inr:
  assumes "calculate_aqi_pm25 (pm25 r) = Inr (a1, c1, k1)"
    and "calculate_aqi_co (co r) = Inr (a2, c2, k2)"
  shows "add_aqi_columns r =
     Inr \<lparr>timestamp = timestamp r, pm25 = pm25 r, pm10 = pm10 r, co = co r,
          temp = temp r, humidity = humidity r,
          aqi_pm25 = a1, category_pm25 = c1, color_pm25 = k1,
          aqi_co = a2, category_co = c2, color_co = k2,
          aqi = nanmax [a1, a2],
          category = np_select (conditions (nanmax [a1, a2])) categories ''Fuera de rango'',
          color = np_select (conditions (nanmax [a1, a2])) colors ''#000000''\<rparr>"
  using assms by (simp add: add_aqi_columns_def Let_def)

lemma pm25_result:
  obtains a cat col where "calculate_aqi_pm25 c = Inr (a, cat, col)" "in_range a"
  by (rule pm25_index_cases [of c]) (simp_all add: in_range_def)

lemma co_result:
  obtains a cat col where "calculate_aqi_co c = Inr (a, cat, col)" "in_range a"
  by (rule co_index_cases [of c]) (simp_all add: in_range_def)

lemma nanmax_in_range: "in_range a \<Longrightarrow> in_range b \<Longrightarrow> in_range (nanmax [a, b])"
  by (cases a; cases b) (simp_all add: in_range_def max_def)

lemma select_in_range:
  "in_range a \<Longrightarrow>
   np_select (conditions a) categories ''Fuera de rango'' = severity_name (spec_overall_category a)"
  by (cases a) (simp_all add: in_range_def select_category)

section \<open>The properties of the specification\<close>

text \<open>
  C3.  For every reading, the overall category is the overall index classified against
  the general AQI thresholds (0 to 50 Good, 51 to 100 Moderate, 101 to 150
  UnhealthyForSensitive, 151 to 200 Unhealthy, 201 to 300 VeryUnhealthy, 301 to 500
  Hazardous), and it is the out-of-range category when the overall index is undefined.
  The category is a function of the combined index alone, whatever the per-pollutant
  categories are.
\<close>

theorem overall_category_reclassifies_index:
  "\<exists>row. add_aqi_columns r = Inr row \<and>
     category row = severity_name (spec_overall_category (aqi row))"
proof -
  obtain a1 c1 k1 where p: "calculate_aqi_pm25 (pm25 r) = Inr (a1, c1, k1)" "in_range a1"
    by (rule pm25_result)
  obtain a2 c2 k2 where q: "calculate_aqi_co (co r) = Inr (a2, c2, k2)" "in_range a2"
    by (rule co_result)
  from p(2) q(2) have "in_range (nanmax [a1, a2])" by (rule nanmax_in_range)
  then show ?thesis
    by (simp add: add_aqi_columns_Inr [OF p(1) q(1)] select_in_range)
qed

lemmas scan_eval = calculate_aqi_pm25_def calculate_aqi_co_def pm25_values co_values
  scan_breakpoints.simps pyfloat.case prod.case

text \<open>
  C6.  A concentration that matches no row of the table (in particular \<open>- 1\<close> and
  \<open>10000\<close>, on either table) gives an undefined index, the out-of-range category and the
  default colour \<open>#000000\<close>; the result is a value (\<open>Inr\<close>), no exception is raised.
  This holds of the loop on any table, and so of both calculators; NaN and the
  infinities match no row.
\<close>

theorem no_match_is_out_of_range:
  "(first_match bps c = None \<longrightarrow>
      scan_breakpoints bps c = Inr (None, severity_name OutOfRange, ''#000000'')) \<and>
   (first_match pm25_breakpoints c = None \<longrightarrow>
      calculate_aqi_pm25 c = Inr (None, severity_name OutOfRange, ''#000000'')) \<and>
   (first_match co_breakpoints c = None \<longrightarrow>
      calculate_aqi_co c = Inr (None, severity_name OutOfRange, ''#000000'')) \<and>
   calculate_aqi_pm25 (Fin (- 1)) = Inr (None, severity_name OutOfRange, ''#000000'') \<and>
   calculate_aqi_pm25 (Fin 10000) = Inr (None, severity_name OutOfRange, ''#000000'') \<and>
   calculate_aqi_co (Fin (- 1)) = Inr (None, severity_name OutOfRange, ''#000000'') \<and>
   calculate_aqi_co (Fin 10000) = Inr (None, severity_name OutOfRange, ''#000000'')"
proof -
  have m: "first_match pm25_breakpoints (Fin (- 1)) = None"
    "first_match pm25_breakpoints (Fin 10000) = None"
    "first_match co_breakpoints (Fin (- 1)) = None"
    "first_match co_breakpoints (Fin 10000) = None"
    by (simp_all add: first_match_def matches_def pm25_values co_values)
  show ?thesis
    by (simp add: scan_no_match m calculate_aqi_pm25_def calculate_aqi_co_def)
qed

theorem no_match_is_out_of_range_witness:
  "first_match pm25_breakpoints (Fin (- 1)) = None \<and>
   calculate_aqi_pm25 (Fin (- 1)) = Inr (None, ''Fuera de rango'', ''#000000'') \<and>
   first_match co_breakpoints NaN = None \<and>
   calculate_aqi_co NaN = Inr (None, ''Fuera de rango'', ''#000000'')"
proof -
  have m: "first_match pm25_breakpoints (Fin (- 1)) = None" "first_match co_breakpoints NaN = None"
    by (simp_all add: first_match_def matches_def pm25_values)
  with no_match_is_out_of_range [of pm25_breakpoints "Fin (- 1)"]
    no_match_is_out_of_range [of co_breakpoints NaN]
  show ?thesis by simp
qed

lemma calc_200: "calculate_aqi_pm25 (Fin 200) = Inr (Some 250, ''Muy Insalubre'', ''#99004C'')"
  by (simp only: scan_eval) (simp add: calc_eval)

lemma calc_co_1: "calculate_aqi_co (Fin 1) = Inr (Some 11, ''Bueno'', ''#00E400'')"
  by (simp only: scan_eval) (simp add: calc_eval)

lemma calc_co_5: "calculate_aqi_co (Fin 5) = Inr (Some 56, ''Moderado'', ''#FFFF00'')"
  by (simp only: scan_eval) (simp add: calc_eval)

lemma calc_NaN: "calculate_aqi_pm25 NaN = Inr (None, ''Fuera de rango'', ''#000000'')"
  by (simp add: scan_eval)

lemma select_eval:
  "np_select (conditions (Some 250)) categories ''Fuera de rango'' = ''Muy Insalubre''"
  "np_select (conditions (Some 250)) colors ''#000000'' = ''#99004C''"
  "np_select (conditions (Some 56)) categories ''Fuera de rango'' = ''Moderado''"
  "np_select (conditions (Some 56)) colors ''#000000'' = ''#FFFF00''"
  by (simp_all add: conditions_def categories_def colors_def)

text \<open>
  C8.  For the reading with \<open>pm25 = 200\<close> and \<open>co = 1\<close> (whatever its other fields),
  200 falls in the row from 150.5 to 250.4 with indices 201 to 300, the PM2.5 index
  (it is 250) lies in that range, the overall index equals it (CO's index is 11), and
  the overall category is VeryUnhealthy.
\<close>

theorem reading_pm25_200_co_1:
  "\<exists>row i. add_aqi_columns \<lparr>timestamp = ts, pm25 = Fin 200, pm10 = p, co = Fin 1,
                               temp = t, humidity = h\<rparr> = Inr row \<and>
     first_match pm25_breakpoints (Fin 200) =
       Some (fl 150.5, fl 250.4, 201, 300, ''Muy Insalubre'', ''#99004C'') \<and>
     aqi_pm25 row = Some i \<and> 201 \<le> i \<and> i \<le> 300 \<and> i = 250 \<and>
     aqi_co row = Some 11 \<and>
     aqi row = Some i \<and>
     category row = severity_name VeryUnhealthy"
proof -
  have "first_match pm25_breakpoints (Fin 200) =
      Some (fl 150.5, fl 250.4, 201, 300, ''Muy Insalubre'', ''#99004C'')"
    by (simp add: first_match_def matches_def pm25_breakpoints_def fl_eval)
  then show ?thesis
    by (simp add: add_aqi_columns_Inr [of _ "Some 250" _ _ "Some 11"] calc_200 calc_co_1 select_eval)
qed

text \<open>
  C10.  Two readings that agree on \<open>pm25\<close> and \<open>co\<close> have the same derived columns
  (per-pollutant index, category and colour, overall index, category and colour),
  however they differ in timestamp, \<open>pm10\<close>, temperature or humidity.
\<close>

theorem derived_columns_depend_on_pm25_and_co:
  assumes "pm25 r1 = pm25 r2" and "co r1 = co r2"
  shows "\<exists>row1 row2. add_aqi_columns r1 = Inr row1 \<and> add_aqi_columns r2 = Inr row2 \<and>
           derived row1 = derived row2"
proof -
  obtain a1 c1 k1 where p: "calculate_aqi_pm25 (pm25 r1) = Inr (a1, c1, k1)" "in_range a1"
    by (rule pm25_result)
  obtain a2 c2 k2 where q: "calculate_aqi_co (co r1) = Inr (a2, c2, k2)" "in_range a2"
    by (rule co_result)
  from p(1) q(1) assms have p': "calculate_aqi_pm25 (pm25 r2) = Inr (a1, c1, k1)"
    and q': "calculate_aqi_co (co r2) = Inr (a2, c2, k2)" by simp_all
  show ?thesis
    by (simp add: add_aqi_columns_Inr [OF p(1) q(1)] add_aqi_columns_Inr [OF p' q']
        derived_def per_pollutant_def)
qed

theorem derived_columns_depend_on_pm25_and_co_witness:
  "pm10 \<lparr>timestamp = ''2024-01-01 00:00:00'', pm25 = Fin 200, pm10 = Fin 20, co = Fin 1,
          temp = Fin 25, humidity = Fin 60\<rparr>
     \<noteq> pm10 \<lparr>timestamp = ''2024-01-01 00:00:00'', pm25 = Fin 200, pm10 = Fin 80, co = Fin 1,
              temp = Fin 5, humidity = NaN\<rparr> \<and>
   (\<exists>row1 row2.
      add_aqi_columns \<lparr>timestamp = ''2024-01-01 00:00:00'', pm25 = Fin 200, pm10 = Fin 20,
                       co = Fin 1, temp = Fin 25, humidity = Fin 60\<rparr> = Inr row1 \<and>
      add_aqi_columns \<lparr>timestamp = ''2024-01-01 00:00:00'', pm25 = Fin 200, pm10 = Fin 80,
                       co = Fin 1, temp = Fin 5, humidity = NaN\<rparr> = Inr row2 \<and>
      derived row1 = derived row2)"
  using derived_columns_depend_on_pm25_and_co
    [of "\<lparr>timestamp = ''2024-01-01 00:00:00'', pm25 = Fin 200, pm10 = Fin 20, co = Fin 1,
          temp = Fin 25, humidity = Fin 60\<rparr>"
        "\<lparr>timestamp = ''2024-01-01 00:00:00'', pm25 = Fin 200, pm10 = Fin 80, co = Fin 1,
          temp = Fin 5, humidity = NaN\<rparr>"]
  by simp

lemma defined_indices_row:
  "defined_indices \<lparr>timestamp = ts, pm25 = p25, pm10 = p10, co = pco, temp = t, humidity = h,
      aqi_pm25 = a1, category_pm25 = c1, color_pm25 = k1,
      aqi_co = a2, category_co = c2, color_co = k2,
      aqi = a, category = c, color = k\<rparr> =
   (case a1 of None \<Rightarrow> [] | Some i \<Rightarrow> [i]) @ (case a2 of None \<Rightarrow> [] | Some i \<Rightarrow> [i])"
  by (simp add: defined_indices_def per_pollutant_def)

text \<open>
  C2.  For every reading, the overall index is the maximum of the defined
  per-pollutant indices when there is one, and undefined when there is none.
\<close>

theorem overall_index_is_max_of_defined:
  "\<exists>row. add_aqi_columns r = Inr row \<and>
     (defined_indices row \<noteq> [] \<longrightarrow> aqi row = Some (Max (set (defined_indices row)))) \<and>
     (defined_indices row = [] \<longrightarrow> aqi row = None)"
proof -
  obtain a1 c1 k1 where p: "calculate_aqi_pm25 (pm25 r) = Inr (a1, c1, k1)" "in_range a1"
    by (rule pm25_result)
  obtain a2 c2 k2 where q: "calculate_aqi_co (co r) = Inr (a2, c2, k2)" "in_range a2"
    by (rule co_result)
  show ?thesis
    by (cases a1; cases a2)
      (simp_all add: add_aqi_columns_Inr [OF p(1) q(1)] defined_indices_row max.commute)
qed

theorem overall_index_is_max_of_defined_witness:
  "(\<exists>row. add_aqi_columns \<lparr>timestamp = ''t'', pm25 = Fin 200, pm10 = Fin 20, co = Fin 1,
                            temp = Fin 25, humidity = Fin 60\<rparr> = Inr row \<and>
      defined_indices row = [250, 11] \<and> aqi row = Some (Max (set (defined_indices row))) \<and>
      aqi row = Some 250) \<and>
   (\<exists>row. add_aqi_columns \<lparr>timestamp = ''t'', pm25 = NaN, pm10 = Fin 20, co = Fin 10000,
                            temp = Fin 25, humidity = Fin 60\<rparr> = Inr row \<and>
      defined_indices row = [] \<and> aqi row = None)"
proof -
  have co: "calculate_aqi_co (Fin 10000) = Inr (None, ''Fuera de rango'', ''#000000'')"
    by (simp only: scan_eval) simp
  have e1: "defined_indices r = [250, 11]"
    if "add_aqi_columns \<lparr>timestamp = ''t'', pm25 = Fin 200, pm10 = Fin 20, co = Fin 1,
          temp = Fin 25, humidity = Fin 60\<rparr> = Inr r" for r
    using that
    by (auto simp add: add_aqi_columns_Inr [of _ "Some 250" _ _ "Some 11"] calc_200 calc_co_1
        defined_indices_row)
  have e2: "defined_indices r = []"
    if "add_aqi_columns \<lparr>timestamp = ''t'', pm25 = NaN, pm10 = Fin 20, co = Fin 10000,
          temp = Fin 25, humidity = Fin 60\<rparr> = Inr r" for r
    using that
    by (auto simp add: add_aqi_columns_Inr [of _ None _ _ None] calc_NaN co defined_indices_row)
  from overall_index_is_max_of_defined
    [of "\<lparr>timestamp = ''t'', pm25 = Fin 200, pm10 = Fin 20, co = Fin 1,
          temp = Fin 25, humidity = Fin 60\<rparr>"]
    overall_index_is_max_of_defined
    [of "\<lparr>timestamp = ''t'', pm25 = NaN, pm10 = Fin 20, co = Fin 10000,
          temp = Fin 25, humidity = Fin 60\<rparr>"]
  show ?thesis using e1 e2 by auto
qed

text \<open>
  C7, as the code has it.  For a reading whose \<open>pm25\<close> is missing (NaN) and whose \<open>co\<close>
  is 5, the per-pollutant results hold CO's result (index 56, Moderate) and, for PM2.5,
  the out-of-range result (undefined index, \<open>"Fuera de rango"\<close>, \<open>#000000\<close>) rather
  than no entry; no exception is raised, and the overall index equals the CO-derived
  index.
\<close>

theorem missing_pm25_gives_out_of_range_entry:
  assumes "pm25 r = NaN" and "co r = Fin 5"
  shows "\<exists>row. add_aqi_columns r = Inr row \<and>
           per_pollutant row =
             [(''pm25'', None, ''Fuera de rango'', ''#000000''),
              (''co'', Some 56, ''Moderado'', ''#FFFF00'')] \<and>
           aqi row = aqi_co row \<and> aqi row = Some 56"
  by (simp add: add_aqi_columns_Inr [of _ None _ _ "Some 56"] assms calc_NaN calc_co_5
      per_pollutant_def)

theorem missing_pm25_gives_out_of_range_entry_witness:
  "pm25 \<lparr>timestamp = ''t'', pm25 = NaN, pm10 = Fin 20, co = Fin 5, temp = Fin 25,
          humidity = Fin 60\<rparr> = NaN \<and>
   co \<lparr>timestamp = ''t'', pm25 = NaN, pm10 = Fin 20, co = Fin 5, temp = Fin 25,
        humidity = Fin 60\<rparr> = Fin 5 \<and>
   (\<exists>row. add_aqi_columns \<lparr>timestamp = ''t'', pm25 = NaN, pm10 = Fin 20, co = Fin 5,
                            temp = Fin 25, humidity = Fin 60\<rparr> = Inr row \<and>
      per_pollutant row =
        [(''pm25'', None, ''Fuera de rango'', ''#000000''),
         (''co'', Some 56, ''Moderado'', ''#FFFF00'')] \<and>
      aqi row = aqi_co row \<and> aqi row = Some 56)"
  using missing_pm25_gives_out_of_range_entry
    [of "\<lparr>timestamp = ''t'', pm25 = NaN, pm10 = Fin 20, co = Fin 5, temp = Fin 25,
          humidity = Fin 60\<rparr>"]
  by simp

text \<open>
  The claim as the specification states it, that the per-pollutant results of such a
  reading contain CO's result only, fails: the PM2.5 entry is there.
\<close>

theorem missing_pm25_counterexample:
  "map_sum id per_pollutant
     (add_aqi_columns \<lparr>timestamp = ''t'', pm25 = NaN, pm10 = Fin 20, co = Fin 5,
                       temp = Fin 25, humidity = Fin 60\<rparr>) =
     Inr [(''pm25'', None, ''Fuera de rango'', ''#000000''),
          (''co'', Some 56, ''Moderado'', ''#FFFF00'')] \<and>
   map_sum id per_pollutant
     (add_aqi_columns \<lparr>timestamp = ''t'', pm25 = NaN, pm10 = Fin 20, co = Fin 5,
                       temp = Fin 25, humidity = Fin 60\<rparr>) \<noteq>
     Inr [(''co'', Some 56, ''Moderado'', ''#FFFF00'')]"
  by (simp add: add_aqi_columns_Inr [of _ None _ _ "Some 56"] calc_NaN calc_co_5
      per_pollutant_def)

lemma pm25_gaps_values:
  "gaps pm25_breakpoints =
     [(12, 6811694436397875 / 562949953421312), (4982107087778611 / 140737488355328, 71 / 2), (7796856854885171 / 140737488355328, 111 / 2), (5291729562160333 / 35184372088832, 301 / 2), (8810166771043533 / 35184372088832, 501 / 2)]"
  by (simp add: gaps_def pm25_values)

lemma no_match_pm25:
  assumes "12 < x \<and> x < 6811694436397875 / 562949953421312 \<or> 4982107087778611 / 140737488355328 < x \<and> x < 71 / 2 \<or> 7796856854885171 / 140737488355328 < x \<and> x < 111 / 2 \<or>
           5291729562160333 / 35184372088832 < x \<and> x < 301 / 2 \<or> 8810166771043533 / 35184372088832 < x \<and> x < 501 / 2"
  shows "first_match pm25_breakpoints (Fin x) = None \<and> 0 \<le> x \<and> x < 4401564948312883 / 8796093022208"
  using assms
  by (simp add: first_match_def matches_def pm25_values) linarith

lemma pm25_gaps:
  "gaps pm25_breakpoints =
     [(12, fl 12.1), (fl 35.4, fl 35.5), (fl 55.4, fl 55.5), (fl 150.4, fl 150.5),
      (fl 250.4, fl 250.5)]"
  by (simp add: gaps_def pm25_breakpoints_def)

lemma fl_500_4: "fl 500.4 = 4401564948312883 / 8796093022208"
  by (simp add: fl_eval)

text \<open>
  C9.  The gaps of the PM2.5 table are those between 12 and 12.1, 35.4 and 35.5, 55.4
  and 55.5, 150.4 and 150.5, 250.4 and 250.5 (each literal being the float it denotes).
  A concentration strictly inside a gap is non-negative and below the last upper bound,
  yet it matches no row, and the result is an undefined index with the category
  \<open>"Fuera de rango"\<close> and the colour \<open>#000000\<close>.
\<close>

theorem pm25_gap_is_out_of_range:
  "gaps pm25_breakpoints =
     [(12, fl 12.1), (fl 35.4, fl 35.5), (fl 55.4, fl 55.5), (fl 150.4, fl 150.5),
      (fl 250.4, fl 250.5)] \<and>
   (\<forall>(lo, hi) \<in> set (gaps pm25_breakpoints).
      lo < x \<and> x < hi \<longrightarrow>
        0 \<le> x \<and> x < fl 500.4 \<and>
        first_match pm25_breakpoints (Fin x) = None \<and>
        calculate_aqi_pm25 (Fin x) = Inr (None, ''Fuera de rango'', ''#000000''))"
proof -
  have r: "0 \<le> x \<and> x < fl 500.4 \<and>
        first_match pm25_breakpoints (Fin x) = None \<and>
        calculate_aqi_pm25 (Fin x) = Inr (None, ''Fuera de rango'', ''#000000'')"
    if "(lo, hi) \<in> set (gaps pm25_breakpoints)" "lo < x" "x < hi" for lo hi
  proof -
    from that have "12 < x \<and> x < 6811694436397875 / 562949953421312 \<or> 4982107087778611 / 140737488355328 < x \<and> x < 71 / 2 \<or> 7796856854885171 / 140737488355328 < x \<and> x < 111 / 2 \<or>
           5291729562160333 / 35184372088832 < x \<and> x < 301 / 2 \<or> 8810166771043533 / 35184372088832 < x \<and> x < 501 / 2"
      unfolding pm25_gaps_values by auto
    then have "first_match pm25_breakpoints (Fin x) = None \<and> 0 \<le> x \<and> x < 4401564948312883 / 8796093022208"
      by (rule no_match_pm25)
    then show ?thesis
      unfolding fl_500_4 by (simp add: calculate_aqi_pm25_def scan_no_match)
  qed
  from pm25_gaps r show ?thesis by blast
qed

theorem pm25_gap_is_out_of_range_witness:
  "(12, fl 12.1) \<in> set (gaps pm25_breakpoints) \<and> 12 < fl 12.05 \<and> fl 12.05 < fl 12.1 \<and>
   calculate_aqi_pm25 (Fin (fl 12.05)) = Inr (None, ''Fuera de rango'', ''#000000'')"
proof -
  have "12 < fl 12.05" "fl 12.05 < fl 12.1" by (simp_all add: fl_eval)
  moreover have "(12, fl 12.1) \<in> set (gaps pm25_breakpoints)" by (simp add: pm25_gaps)
  ultimately show ?thesis using pm25_gap_is_out_of_range [of "fl 12.05"] by blast
qed

lemma pm25_boundaries:
  "list_all (\<lambda>(bl, bh, al, ah, cat, col).
      calculate_aqi_pm25 (Fin bl) = Inr (Some al, cat, col) \<and>
      calculate_aqi_pm25 (Fin bh) = Inr (Some ah, cat, col)) pm25_breakpoints"
  apply (simp only: scan_eval list.pred_inject)
  apply (simp add: calc_eval)
  done

lemma co_boundaries:
  "list_all (\<lambda>(bl, bh, al, ah, cat, col).
      calculate_aqi_co (Fin bl) = Inr (Some al, cat, col) \<and>
      calculate_aqi_co (Fin bh) = Inr (Some ah, cat, col)) co_breakpoints"
  apply (simp only: scan_eval list.pred_inject)
  apply (simp add: calc_eval)
  done

text \<open>
  C4.  At each bound of each row of either table, the calculator returns the index the
  row declares for that bound (with the row's category and colour); in particular 12.0
  gives 50 and 12.1 gives 51 on the PM2.5 table.
\<close>

theorem boundary_gives_declared_index:
  "(\<forall>(bl, bh, al, ah, cat, col) \<in> set pm25_breakpoints.
      calculate_aqi_pm25 (Fin bl) = Inr (Some al, cat, col) \<and>
      calculate_aqi_pm25 (Fin bh) = Inr (Some ah, cat, col)) \<and>
   (\<forall>(bl, bh, al, ah, cat, col) \<in> set co_breakpoints.
      calculate_aqi_co (Fin bl) = Inr (Some al, cat, col) \<and>
      calculate_aqi_co (Fin bh) = Inr (Some ah, cat, col)) \<and>
   calculate_aqi_pm25 (Fin 12) = Inr (Some 50, ''Bueno'', ''#00E400'') \<and>
   calculate_aqi_pm25 (Fin (fl 12.1)) = Inr (Some 51, ''Moderado'', ''#FFFF00'')"
proof -
  have a: "\<forall>(bl, bh, al, ah, cat, col) \<in> set pm25_breakpoints.
      calculate_aqi_pm25 (Fin bl) = Inr (Some al, cat, col) \<and>
      calculate_aqi_pm25 (Fin bh) = Inr (Some ah, cat, col)"
    using pm25_boundaries by (simp only: list_all_iff)
  have b: "\<forall>(bl, bh, al, ah, cat, col) \<in> set co_breakpoints.
      calculate_aqi_co (Fin bl) = Inr (Some al, cat, col) \<and>
      calculate_aqi_co (Fin bh) = Inr (Some ah, cat, col)"
    using co_boundaries by (simp only: list_all_iff)
  have "(0, 12, 0, 50, ''Bueno'', ''#00E400'') \<in> set pm25_breakpoints"
    "(fl 12.1, fl 35.4, 51, 100, ''Moderado'', ''#FFFF00'') \<in> set pm25_breakpoints"
    by (simp_all add: pm25_breakpoints_def)
  with a have "calculate_aqi_pm25 (Fin 12) = Inr (Some 50, ''Bueno'', ''#00E400'')"
    "calculate_aqi_pm25 (Fin (fl 12.1)) = Inr (Some 51, ''Moderado'', ''#FFFF00'')"
    by blast+
  with a b show ?thesis by blast
qed

theorem boundary_gives_declared_index_witness:
  "(fl 4.5, fl 9.4, 51, 100, ''Moderado'', ''#FFFF00'') \<in> set co_breakpoints \<and>
   calculate_aqi_co (Fin (fl 4.5)) = Inr (Some 51, ''Moderado'', ''#FFFF00'') \<and>
   calculate_aqi_co (Fin (fl 9.4)) = Inr (Some 100, ''Moderado'', ''#FFFF00'') \<and>
   (fl 250.5, fl 500.4, 301, 500, ''Peligroso'', ''#7E0023'') \<in> set pm25_breakpoints \<and>
   calculate_aqi_pm25 (Fin (fl 250.5)) = Inr (Some 301, ''Peligroso'', ''#7E0023'') \<and>
   calculate_aqi_pm25 (Fin (fl 500.4)) = Inr (Some 500, ''Peligroso'', ''#7E0023'')"
proof -
  have "(fl 4.5, fl 9.4, 51, 100, ''Moderado'', ''#FFFF00'') \<in> set co_breakpoints"
    "(fl 250.5, fl 500.4, 301, 500, ''Peligroso'', ''#7E0023'') \<in> set pm25_breakpoints"
    by (simp_all add: pm25_breakpoints_def co_breakpoints_def)
  with boundary_gives_declared_index show ?thesis by blast
qed

lemma covered_first_match:
  "covered bps x \<Longrightarrow> \<exists>s. first_match bps (Fin x) = Some s"
  by (cases "find (\<lambda>s. matches s x) bps")
    (auto simp add: covered_def first_match_def find_None_iff list_ex_iff)

lemma covered_pm25_bounds: "covered pm25_breakpoints x \<Longrightarrow> 0 \<le> x \<and> x \<le> fl 500.4"
proof -
  have v: "fl 500.4 = 4401564948312883 / 8796093022208" by (simp add: fl_eval)
  show "covered pm25_breakpoints x \<Longrightarrow> 0 \<le> x \<and> x \<le> fl 500.4"
    unfolding v by (auto simp add: covered_def pm25_values matches_def)
qed

text \<open>
  C5.  For concentrations \<open>x \<le> y\<close> both covered by the PM2.5 table (hence within 0 and
  500.4), the calculator returns a defined index for each, and the index of \<open>x\<close> is at
  most the index of \<open>y\<close>.
\<close>

theorem pm25_index_monotone:
  assumes "x \<le> y" and "covered pm25_breakpoints x" and "covered pm25_breakpoints y"
  shows "0 \<le> x \<and> y \<le> fl 500.4 \<and>
     (\<exists>i j cx kx cy ky.
        calculate_aqi_pm25 (Fin x) = Inr (Some i, cx, kx) \<and>
        calculate_aqi_pm25 (Fin y) = Inr (Some j, cy, ky) \<and> i \<le> j)"
proof -
  from assms(2) obtain s where s: "first_match pm25_breakpoints (Fin x) = Some s"
    using covered_first_match by blast
  from assms(3) obtain t where t: "first_match pm25_breakpoints (Fin y) = Some t"
    using covered_first_match by blast
  from scan_mono [OF pm25_ok assms(1) s t] covered_pm25_bounds [OF assms(2)]
    covered_pm25_bounds [OF assms(3)]
  show ?thesis by (simp add: calculate_aqi_pm25_def)
qed

lemma calc_10: "calculate_aqi_pm25 (Fin 10) = Inr (Some 42, ''Bueno'', ''#00E400'')"
  by (simp only: scan_eval) (simp add: calc_eval)

theorem pm25_index_monotone_witness:
  "(10::rat) \<le> 200 \<and> covered pm25_breakpoints 10 \<and> covered pm25_breakpoints 200 \<and>
   calculate_aqi_pm25 (Fin 10) = Inr (Some 42, ''Bueno'', ''#00E400'') \<and>
   calculate_aqi_pm25 (Fin 200) = Inr (Some 250, ''Muy Insalubre'', ''#99004C'') \<and>
   (\<exists>i j cx kx cy ky.
        calculate_aqi_pm25 (Fin 10) = Inr (Some i, cx, kx) \<and>
        calculate_aqi_pm25 (Fin 200) = Inr (Some j, cy, ky) \<and> i \<le> j)"
proof -
  have c: "covered pm25_breakpoints 10" "covered pm25_breakpoints 200"
    by (simp_all add: covered_def matches_def pm25_values)
  have "(10::rat) \<le> 200" by simp
  from pm25_index_monotone [OF this c] c show ?thesis
    by (simp add: calc_10 calc_200)
qed

lemma rhe_nearest:
  "\<bar>of_int (round_half_even x) - x\<bar> \<le> 1 / 2 \<and>
   (\<bar>of_int (round_half_even x) - x\<bar> = 1 / 2 \<longrightarrow> even (round_half_even x))"
proof -
  define f where "f = \<lfloor>x\<rfloor>"
  define d where "d = x - of_int f"
  have d: "0 \<le> d" "d < 1"
    unfolding d_def f_def using floor_correct [of x] by linarith+
  have x: "x = of_int f + d" by (simp add: d_def)
  have r: "round_half_even x =
      (if d < 1 / 2 then f else if 1 / 2 < d then f + 1 else if even f then f else f + 1)"
    by (simp add: round_half_even_def nearest_even_def f_def [symmetric] d_def [symmetric])
  consider "d < 1 / 2" | "1 / 2 < d" | "d = 1 / 2" by linarith
  then show ?thesis
  proof cases
    case 1
    with d r show ?thesis by (simp add: x abs_if)
  next
    case 2
    with d r show ?thesis by (simp add: x abs_if)
  next
    case 3
    with r have R: "round_half_even x = (if even f then f else f + 1)" by simp
    from 3 x have xe: "x = of_int f + 1 / 2" by simp
    show ?thesis unfolding R by (simp add: xe)
  qed
qed

lemma first_match_interpolates:
  assumes ok: "table_ok bps"
    and m: "first_match bps (Fin x) = Some (bl, bh, al, ah, cat, col)"
  shows "scan_breakpoints bps (Fin x) =
     Inr (Some (py_round (fadd (fmul (fl (of_int (ah - al) / fsub bh bl)) (fsub x bl)) (of_int al))),
          cat, col)"
proof -
  from m have "(bl, bh, al, ah, cat, col) \<in> set bps" using first_match_set by blast
  with ok have "seg_ok (bl, bh, al, ah, cat, col)" by (rule table_ok_seg)
  then have "0 < fsub bh bl" by (simp add: seg_ok_def)
  then have "interpolate bl bh al ah x =
      Inr (fadd (fmul (fl (of_int (ah - al) / fsub bh bl)) (fsub x bl)) (of_int al))"
    by (simp add: interpolate_def fdiv_def)
  with scan_first_match [OF m] show ?thesis by simp
qed

lemma first_match_co_5:
  "first_match co_breakpoints (Fin 5) = Some (fl 4.5, fl 9.4, 51, 100, ''Moderado'', ''#FFFF00'')"
  by (simp add: first_match_def matches_def co_breakpoints_def fl_eval)

lemma interpolate_co_5:
  "fadd (fmul (fl (of_int (100 - 51) / fsub (fl 9.4) (fl 4.5))) (fsub 5 (fl 4.5))) (of_int 51) = 56"
  by (simp add: calc_eval)

lemma py_round_56: "py_round 56 = 56"
  by (simp add: py_round_def round_half_even_def nearest_even_def)

lemma py_round_half: "py_round (1 / 2) = 0"
  by (simp add: py_round_def round_half_even_def nearest_even_def floor_rat_numeral)

lemma first_match_012:
  "first_match pm25_breakpoints (Fin (fl 0.12)) = Some (0, 12, 0, 50, ''Bueno'', ''#00E400'')"
  by (simp add: first_match_def matches_def pm25_breakpoints_def fl_eval)

lemma interpolate_012:
  "fadd (fmul (fl (of_int (50 - 0) / fsub 12 0)) (fsub (fl 0.12) 0)) (of_int 0) = 1 / 2"
  by (simp add: calc_eval)

lemma calc_012: "calculate_aqi_pm25 (Fin (fl 0.12)) = Inr (Some 0, ''Bueno'', ''#00E400'')"
  by (simp only: scan_eval) (simp add: calc_eval)

text \<open>
  C1, as the code has it.  For every concentration and the first row of the pollutant's
  table that matches it, in the order of the loop, the calculator returns the index
  \<open>round((aqi_high - aqi_low) / (bp_high - bp_low) * (c - bp_low) + aqi_low)\<close>, computed in
  float arithmetic, where \<open>round\<close> is Python's: the result is within one half of the
  interpolated value, and on a tie it is the even neighbour (not the upper one).
\<close>

theorem first_match_gives_rounded_interpolation:
  "(first_match pm25_breakpoints (Fin x) = Some (bl, bh, al, ah, cat, col) \<longrightarrow>
      (let a = fadd (fmul (fl (of_int (ah - al) / fsub bh bl)) (fsub x bl)) (of_int al)
       in calculate_aqi_pm25 (Fin x) = Inr (Some (py_round a), cat, col) \<and>
          \<bar>of_int (py_round a) - a\<bar> \<le> 1 / 2 \<and>
          (\<bar>of_int (py_round a) - a\<bar> = 1 / 2 \<longrightarrow> even (py_round a)))) \<and>
   (first_match co_breakpoints (Fin x) = Some (bl, bh, al, ah, cat, col) \<longrightarrow>
      (let a = fadd (fmul (fl (of_int (ah - al) / fsub bh bl)) (fsub x bl)) (of_int al)
       in calculate_aqi_co (Fin x) = Inr (Some (py_round a), cat, col) \<and>
          \<bar>of_int (py_round a) - a\<bar> \<le> 1 / 2 \<and>
          (\<bar>of_int (py_round a) - a\<bar> = 1 / 2 \<longrightarrow> even (py_round a))))"
  using first_match_interpolates [OF pm25_ok, of x bl bh al ah cat col]
    first_match_interpolates [OF co_ok, of x bl bh al ah cat col]
    rhe_nearest [of "fadd (fmul (fl (of_int (ah - al) / fsub bh bl)) (fsub x bl)) (of_int al)"]
  by (simp add: Let_def calculate_aqi_pm25_def calculate_aqi_co_def py_round_def)

theorem first_match_gives_rounded_interpolation_witness:
  "first_match pm25_breakpoints (Fin (fl 0.12)) = Some (0, 12, 0, 50, ''Bueno'', ''#00E400'') \<and>
   fadd (fmul (fl (of_int (50 - 0) / fsub 12 0)) (fsub (fl 0.12) 0)) (of_int 0) = 1 / 2 \<and>
   calculate_aqi_pm25 (Fin (fl 0.12)) = Inr (Some (py_round (1 / 2)), ''Bueno'', ''#00E400'') \<and>
   \<bar>of_int (py_round (1 / 2)) - 1 / 2 :: rat\<bar> = 1 / 2 \<and> even (py_round (1 / 2)) \<and>
   first_match co_breakpoints (Fin 5) =
     Some (fl 4.5, fl 9.4, 51, 100, ''Moderado'', ''#FFFF00'') \<and>
   fadd (fmul (fl (of_int (100 - 51) / fsub (fl 9.4) (fl 4.5))) (fsub 5 (fl 4.5))) (of_int 51) = 56 \<and>
   calculate_aqi_co (Fin 5) = Inr (Some 56, ''Moderado'', ''#FFFF00'')"
proof -
  have "first_match pm25_breakpoints (Fin (fl 0.12)) = Some (0, 12, 0, 50, ''Bueno'', ''#00E400'') \<longrightarrow>
      (let a = fadd (fmul (fl (of_int (50 - 0) / fsub 12 0)) (fsub (fl 0.12) 0)) (of_int 0)
       in calculate_aqi_pm25 (Fin (fl 0.12)) = Inr (Some (py_round a), ''Bueno'', ''#00E400'') \<and>
          \<bar>of_int (py_round a) - a\<bar> \<le> 1 / 2 \<and>
          (\<bar>of_int (py_round a) - a\<bar> = 1 / 2 \<longrightarrow> even (py_round a)))"
    using first_match_gives_rounded_interpolation
      [of "fl 0.12" 0 12 0 50 "''Bueno''" "''#00E400''"]
    by (rule conjunct1)
  then have p: "calculate_aqi_pm25 (Fin (fl 0.12)) = Inr (Some (py_round (1 / 2)), ''Bueno'', ''#00E400'') \<and>
      \<bar>of_int (py_round (1 / 2)) - 1 / 2 :: rat\<bar> \<le> 1 / 2 \<and>
      (\<bar>of_int (py_round (1 / 2)) - 1 / 2 :: rat\<bar> = 1 / 2 \<longrightarrow> even (py_round (1 / 2)))"
    unfolding interpolate_012 Let_def using first_match_012 by (rule mp)
  have "first_match co_breakpoints (Fin 5) =
        Some (fl 4.5, fl 9.4, 51, 100, ''Moderado'', ''#FFFF00'') \<longrightarrow>
      (let a = fadd (fmul (fl (of_int (100 - 51) / fsub (fl 9.4) (fl 4.5))) (fsub 5 (fl 4.5)))
                 (of_int 51)
       in calculate_aqi_co (Fin 5) = Inr (Some (py_round a), ''Moderado'', ''#FFFF00'') \<and>
          \<bar>of_int (py_round a) - a\<bar> \<le> 1 / 2 \<and>
          (\<bar>of_int (py_round a) - a\<bar> = 1 / 2 \<longrightarrow> even (py_round a)))"
    using first_match_gives_rounded_interpolation
      [of 5 "fl 4.5" "fl 9.4" 51 100 "''Moderado''" "''#FFFF00''"]
    by (rule conjunct2)
  then have "calculate_aqi_co (Fin 5) = Inr (Some (py_round 56), ''Moderado'', ''#FFFF00'') \<and>
      \<bar>of_int (py_round 56) - 56 :: rat\<bar> \<le> 1 / 2 \<and>
      (\<bar>of_int (py_round 56) - 56 :: rat\<bar> = 1 / 2 \<longrightarrow> even (py_round 56))"
    unfolding interpolate_co_5 Let_def using first_match_co_5 by (rule mp)
  then have q: "calculate_aqi_co (Fin 5) = Inr (Some 56, ''Moderado'', ''#FFFF00'')"
    by (simp only: py_round_56)
  have "\<bar>of_int (py_round (1 / 2)) - 1 / 2 :: rat\<bar> = 1 / 2"
    by (simp add: py_round_half)
  with p q show ?thesis
    using first_match_012 interpolate_012 first_match_co_5 interpolate_co_5 by blast
qed

text \<open>
  The claim as the specification states it, with ties rounded upwards, fails at the
  float 0.12 on the PM2.5 table: the interpolation is exactly one half, rounding half up
  gives 1, and the calculator returns 0.
\<close>

theorem round_half_up_counterexample:
  "first_match pm25_breakpoints (Fin (fl 0.12)) = Some (0, 12, 0, 50, ''Bueno'', ''#00E400'') \<and>
   fadd (fmul (fl (of_int (50 - 0) / fsub 12 0)) (fsub (fl 0.12) 0)) (of_int 0) = 1 / 2 \<and>
   spec_round_half_up (1 / 2) = 1 \<and>
   calculate_aqi_pm25 (Fin (fl 0.12)) = Inr (Some 0, ''Bueno'', ''#00E400'') \<and>
   calculate_aqi_pm25 (Fin (fl 0.12)) \<noteq>
     Inr (Some (spec_round_half_up
                  (fadd (fmul (fl (of_int (50 - 0) / fsub 12 0)) (fsub (fl 0.12) 0)) (of_int 0))),
          ''Bueno'', ''#00E400'')"
proof -
  have "spec_round_half_up (1 / 2) = 1" by (simp add: spec_round_half_up_def)
  then show ?thesis
    by (simp only: first_match_012 interpolate_012 calc_012) simp
qed

end
